theory Spec2Isabelle
  imports Main "HOL-Library.Char_ord" "HOL-Library.List_Lexorder"
begin

section \<open>Work-session tracking: the daily-hours aggregation of bot.py\<close>

text \<open>
  The development embeds \<^verbatim>\<open>calculate_daily_hours\<close> and \<^verbatim>\<open>log_event\<close> of \<^verbatim>\<open>src/bot.py\<close>
  and the event-type choice of \<^verbatim>\<open>take_break\<close>. The two worksheets are lists of rows, as
  \<^verbatim>\<open>get_all_records\<close> returns them (one dictionary per sheet row below the header, keyed by
  the header cells that \<^verbatim>\<open>init_sheets\<close> writes); every cell is a string. Strings are
  compared as Python compares them: lexicographically by character code, a proper prefix
  being smaller.

  Durations are integers: \<^verbatim>\<open>timedelta.total_seconds()\<close> is a float in Python, but every
  value it takes here is a whole number of seconds, on which float arithmetic is exact.
  The two calls of \<^verbatim>\<open>datetime.date.today()\<close> inside one difference are taken to give the
  same day. Runs are sequential: one call of the function ends before the next begins.
\<close>

subsection \<open>Rows, times and errors\<close>

text \<open>A row of the sheet "Logs" (columns Nom, Date, Heure, Evenement).\<close>

record log_row =
  Nom :: string
  Date :: string
  Heure :: string
  Evenement :: string

text \<open>A row of the sheet "Totaux" (columns Nom, Date, Heures Travaillees).\<close>

record total_row =
  t_Nom :: string
  t_Date :: string
  t_Heures :: string

text \<open>\<^verbatim>\<open>datetime.time\<close>, as \<^verbatim>\<open>strptime(..., '%H:%M:%S').time()\<close> builds it.\<close>

record time_of_day =
  hour :: nat
  minute :: nat
  second :: nat

text \<open>
  The exceptions the try block can meet: a failed call to the spreadsheet service and the
  \<^verbatim>\<open>ValueError\<close> of \<^verbatim>\<open>strptime\<close>. Both are subclasses of \<^verbatim>\<open>Exception\<close>.
\<close>

datatype error = StoreError | ValueError

subsection \<open>Parsing a time: strptime with the format %H:%M:%S\<close>

text \<open>
  CPython compiles the format into the regular expression
  \<^verbatim>\<open>(?P<H>2[0-3]|[0-1]\d|\d):(?P<M>[0-5]\d|\d):(?P<S>6[0-1]|[0-5]\d|\d)\<close>,
  matches it at the start of the string, raises \<^verbatim>\<open>ValueError\<close> when there is no match or
  when text remains after the match, and hands the fields to the \<^verbatim>\<open>datetime\<close>
  constructor, which raises \<^verbatim>\<open>ValueError\<close> for a second above 59. A matcher returns
  the list of its matches (value and remaining text) in the order in which the
  backtracking regular-expression engine tries them. Digits are the ASCII digits.
\<close>

definition digit_of :: "char \<Rightarrow> nat option" where
  "digit_of c = map_of (zip ''0123456789'' [0, 1, 2, 3, 4, 5, 6, 7, 8, 9]) c"

definition re_digit :: "string \<Rightarrow> (nat \<times> string) list" where
  "re_digit s =
     (case s of
        [] \<Rightarrow> []
      | c # r \<Rightarrow> (case digit_of c of None \<Rightarrow> [] | Some d \<Rightarrow> [(d, r)]))"

definition re_range :: "nat \<Rightarrow> nat \<Rightarrow> string \<Rightarrow> (nat \<times> string) list" where
  "re_range lo hi s = [(d, r). (d, r) \<leftarrow> re_digit s, lo \<le> d \<and> d \<le> hi]"

definition re_two :: "nat \<Rightarrow> nat \<Rightarrow> nat \<Rightarrow> nat \<Rightarrow> string \<Rightarrow> (nat \<times> string) list" where
  "re_two lo1 hi1 lo2 hi2 s =
     [(10 * a + b, r2). (a, r1) \<leftarrow> re_range lo1 hi1 s, (b, r2) \<leftarrow> re_range lo2 hi2 r1]"

definition re_H :: "string \<Rightarrow> (nat \<times> string) list" where
  "re_H s = re_two 2 2 0 3 s @ re_two 0 1 0 9 s @ re_digit s"

definition re_M :: "string \<Rightarrow> (nat \<times> string) list" where
  "re_M s = re_two 0 5 0 9 s @ re_digit s"

definition re_S :: "string \<Rightarrow> (nat \<times> string) list" where
  "re_S s = re_two 6 6 0 1 s @ re_two 0 5 0 9 s @ re_digit s"

definition re_colon :: "string \<Rightarrow> string list" where
  "re_colon s = (case s of [] \<Rightarrow> [] | c # r \<Rightarrow> (if c = CHR '':'' then [r] else []))"

definition strptime :: "string \<Rightarrow> error + time_of_day" where
  "strptime s =
     (case [(h, m, sec, r5). (h, r1) \<leftarrow> re_H s, r2 \<leftarrow> re_colon r1, (m, r3) \<leftarrow> re_M r2,
                             r4 \<leftarrow> re_colon r3, (sec, r5) \<leftarrow> re_S r4] of
        [] \<Rightarrow> Inl ValueError
      | (h, m, sec, rest) # _ \<Rightarrow>
          if rest \<noteq> [] then Inl ValueError
          else if 59 < sec then Inl ValueError
          else Inr \<lparr>hour = h, minute = m, second = sec\<rparr>)"

text \<open>
  \<^verbatim>\<open>(combine(today, b) - combine(today, a)).total_seconds()\<close>: the signed number of seconds
  from \<open>a\<close> to \<open>b\<close> on one day.
\<close>

definition seconds_of :: "time_of_day \<Rightarrow> int" where
  "seconds_of t = int (hour t) * 3600 + int (minute t) * 60 + int (second t)"

definition seconds_between :: "time_of_day \<Rightarrow> time_of_day \<Rightarrow> int" where
  "seconds_between a b = seconds_of b - seconds_of a"

subsection \<open>The scan over the sorted records\<close>

text \<open>The four local variables of the loop (lines 109 to 112).\<close>

record scan_state =
  total_seconds :: int
  current_session_start :: "time_of_day option"
  in_break :: bool
  break_start :: "time_of_day option"

definition initial_state :: scan_state where
  "initial_state =
     \<lparr>total_seconds = 0, current_session_start = None, in_break = False, break_start = None\<rparr>"

text \<open>
  One iteration of the loop (lines 115 to 139). The time is parsed first, whatever the
  event type is. A \<^verbatim>\<open>datetime.time\<close> is always true in a condition (Python 3.5 and later;
  the source needs 3.6 for its f-strings), so \<^verbatim>\<open>if current_session_start\<close> tests for
  \<^verbatim>\<open>None\<close> only.
\<close>

definition process_record :: "scan_state \<Rightarrow> log_row \<Rightarrow> error + scan_state" where
  "process_record st r =
     (case strptime (Heure r) of
        Inl e \<Rightarrow> Inl e
      | Inr event_time \<Rightarrow>
          Inr (if Evenement r = ''CHECK IN'' then
                 (case current_session_start st of
                    None \<Rightarrow> st\<lparr>current_session_start := Some event_time\<rparr>
                  | Some s \<Rightarrow> st)
               else if Evenement r = ''BREAK'' then
                 (case current_session_start st of
                    Some s \<Rightarrow>
                      if \<not> in_break st then
                        st\<lparr>total_seconds := total_seconds st + seconds_between s event_time,
                           in_break := True, break_start := Some event_time\<rparr>
                      else st\<lparr>in_break := False, current_session_start := Some event_time\<rparr>
                  | None \<Rightarrow>
                      if in_break st then
                        st\<lparr>in_break := False, current_session_start := Some event_time\<rparr>
                      else st)
               else if Evenement r = ''CHECK OUT'' then
                 (case current_session_start st of
                    Some s \<Rightarrow>
                      if \<not> in_break st then
                        st\<lparr>total_seconds := total_seconds st + seconds_between s event_time,
                           current_session_start := None\<rparr>
                      else st\<lparr>current_session_start := None\<rparr>
                  | None \<Rightarrow> st\<lparr>current_session_start := None\<rparr>)
               else st))"

fun scan_records :: "scan_state \<Rightarrow> log_row list \<Rightarrow> error + scan_state" where
  "scan_records st [] = Inr st"
| "scan_records st (r # rs) =
     (case process_record st r of Inl e \<Rightarrow> Inl e | Inr st' \<Rightarrow> scan_records st' rs)"

text \<open>The statement after the loop (lines 142 to 146).\<close>

definition still_in_break :: "scan_state \<Rightarrow> int" where
  "still_in_break st =
     (if in_break st then
        (case break_start st of
           None \<Rightarrow> total_seconds st
         | Some b \<Rightarrow>
             (case current_session_start st of
                None \<Rightarrow> total_seconds st
              | Some s \<Rightarrow> total_seconds st + seconds_between s b))
      else total_seconds st)"

subsection \<open>Formatting\<close>

text \<open>Python's \<^verbatim>\<open>str\<close> of an integer, and the format \<^verbatim>\<open>02d\<close>.\<close>

definition digit_char :: "nat \<Rightarrow> char" where
  "digit_char n = ''0123456789'' ! (n mod 10)"

fun digits_of_nat :: "nat \<Rightarrow> string" where
  "digits_of_nat n =
     (if n < 10 then [digit_char n] else digits_of_nat (n div 10) @ [digit_char n])"

declare digits_of_nat.simps [simp del]

definition str_int :: "int \<Rightarrow> string" where
  "str_int i = (if i < 0 then CHR ''-'' # digits_of_nat (nat (- i)) else digits_of_nat (nat i))"

definition format_02d :: "int \<Rightarrow> string" where
  "format_02d i =
     (if i < 0 then
        CHR ''-'' # replicate (1 - length (digits_of_nat (nat (- i)))) CHR ''0''
          @ digits_of_nat (nat (- i))
      else replicate (2 - length (digits_of_nat (nat i))) CHR ''0'' @ digits_of_nat (nat i))"

text \<open>Lines 149 to 154. Python's \<^verbatim>\<open>//\<close> and \<^verbatim>\<open>%\<close> round towards minus infinity, as
  \<open>div\<close> and \<open>mod\<close> on \<open>int\<close> do.\<close>

definition format_time :: "int \<Rightarrow> string" where
  "format_time secs =
     (let hours = secs div 3600;
          minutes = (secs mod 3600) div 60;
          seconds = secs mod 60
      in str_int hours @ ''h'' @ format_02d minutes @ ''m'' @ format_02d seconds @ ''s'')"

subsection \<open>The two worksheets\<close>

text \<open>
  The globals \<^verbatim>\<open>time_logs\<close> and \<^verbatim>\<open>daily_totals\<close>: \<open>None\<close> until \<^verbatim>\<open>on_ready\<close> has
  connected, then the rows of the sheet below its header.
\<close>

record sheets =
  time_logs :: "log_row list option"
  daily_totals :: "total_row list option"

text \<open>
  The spreadsheet service is outside the repository. Each call the aggregation makes to
  it either completes or raises, and which of the two happens is an input of the model:
  one flag for each of the three calls of one run. A write that raises leaves the sheet
  as it was.
\<close>

record store_faults =
  logs_read_fails :: bool
  totals_read_fails :: bool
  totals_write_fails :: bool

definition get_all_records :: "bool \<Rightarrow> 'r list \<Rightarrow> error + 'r list" where
  "get_all_records fails rows = (if fails then Inl StoreError else Inr rows)"

definition set_cell :: "nat \<Rightarrow> string \<Rightarrow> total_row \<Rightarrow> total_row" where
  "set_cell col v r =
     (if col = 1 then r\<lparr>t_Nom := v\<rparr>
      else if col = 2 then r\<lparr>t_Date := v\<rparr>
      else if col = 3 then r\<lparr>t_Heures := v\<rparr>
      else r)"

text \<open>
  \<^verbatim>\<open>update_cell(row, col, value)\<close> counts sheet rows from 1, the header being row 1, so
  sheet row \<open>row\<close> is the record with index \<open>row - 2\<close>. The header and the cells outside
  the table are not modelled: a write there leaves the rows as they are. The aggregation
  only writes column 3 of a row it has just read.
\<close>

definition update_cell ::
  "bool \<Rightarrow> nat \<Rightarrow> nat \<Rightarrow> string \<Rightarrow> total_row list \<Rightarrow> (error + unit) \<times> total_row list" where
  "update_cell fails row col v rows =
     (if fails then (Inl StoreError, rows)
      else if 2 \<le> row \<and> row - 2 < length rows then
        (Inr (), rows[row - 2 := set_cell col v (rows ! (row - 2))])
      else (Inr (), rows))"

definition append_row :: "bool \<Rightarrow> 'r \<Rightarrow> 'r list \<Rightarrow> (error + unit) \<times> 'r list" where
  "append_row fails r rows =
     (if fails then (Inl StoreError, rows) else (Inr (), rows @ [r]))"

subsection \<open>calculate_daily_hours\<close>

text \<open>
  The loop of lines 160 to 164: the sheet row of the first entry of the user and the date,
  counting from \<open>i\<close> (the source starts at 2).
\<close>

fun find_entry :: "nat \<Rightarrow> total_row list \<Rightarrow> string \<Rightarrow> string \<Rightarrow> nat option" where
  "find_entry i [] username date_str = None"
| "find_entry i (entry # entries) username date_str =
     (if t_Nom entry = username \<and> t_Date entry = date_str then Some i
      else find_entry (Suc i) entries username date_str)"

text \<open>Lines 157 to 167: update the entry found in place, or append a new one.\<close>

definition write_total ::
  "bool \<Rightarrow> total_row list \<Rightarrow> total_row list \<Rightarrow> string \<Rightarrow> string \<Rightarrow> string
     \<Rightarrow> (error + unit) \<times> total_row list" where
  "write_total fails existing_entries totals username date_str formatted_time =
     (case find_entry 2 existing_entries username date_str of
        Some i \<Rightarrow> update_cell fails i 3 formatted_time totals
      | None \<Rightarrow>
          append_row fails
            \<lparr>t_Nom = username, t_Date = date_str, t_Heures = formatted_time\<rparr> totals)"

text \<open>
  The body of the \<^verbatim>\<open>try\<close> statement (lines 99 to 169). The result is the exception raised
  or the value returned, with the rows of "Totaux" afterwards. \<^verbatim>\<open>list.sort\<close> is stable,
  as \<open>sort_key\<close> is, and its key is the string of the column Heure.
\<close>

definition try_block ::
  "store_faults \<Rightarrow> log_row list \<Rightarrow> total_row list \<Rightarrow> string \<Rightarrow> string
     \<Rightarrow> (error + string option) \<times> total_row list" where
  "try_block fl logs totals username date_str =
     (case get_all_records (logs_read_fails fl) logs of
        Inl e \<Rightarrow> (Inl e, totals)
      | Inr records \<Rightarrow>
          (let user_records = [r \<leftarrow> records. Nom r = username \<and> Date r = date_str] in
           if user_records = [] then (Inr None, totals)
           else
             (case scan_records initial_state (sort_key Heure user_records) of
                Inl e \<Rightarrow> (Inl e, totals)
              | Inr st \<Rightarrow>
                  (let formatted_time = format_time (still_in_break st) in
                   case get_all_records (totals_read_fails fl) totals of
                     Inl e \<Rightarrow> (Inl e, totals)
                   | Inr existing_entries \<Rightarrow>
                       (case write_total (totals_write_fails fl) existing_entries totals
                               username date_str formatted_time of
                          (Inl e, totals') \<Rightarrow> (Inl e, totals')
                        | (Inr u, totals') \<Rightarrow> (Inr (Some formatted_time), totals'))))))"

text \<open>
  The whole function: the guard of line 95, and \<^verbatim>\<open>except Exception: return None\<close>. The
  first component is what the caller sees, \<open>Inl\<close> for an exception that reaches it.
\<close>

definition calculate_daily_hours ::
  "store_faults \<Rightarrow> sheets \<Rightarrow> string \<Rightarrow> string \<Rightarrow> (error + string option) \<times> sheets" where
  "calculate_daily_hours fl sh username date_str =
     (case time_logs sh of
        None \<Rightarrow> (Inr None, sh)
      | Some logs \<Rightarrow>
          (case daily_totals sh of
             None \<Rightarrow> (Inr None, sh)
           | Some totals \<Rightarrow>
               (case try_block fl logs totals username date_str of
                  (Inl e, totals') \<Rightarrow> (Inr None, sh\<lparr>daily_totals := Some totals'\<rparr>)
                | (Inr res, totals') \<Rightarrow> (Inr res, sh\<lparr>daily_totals := Some totals'\<rparr>))))"

subsection \<open>The commands that record events\<close>

text \<open>
  \<^verbatim>\<open>log_event\<close> with the clock's date and time as arguments; \<open>log_entry\<close> is the row
  it appends. A missing sheet and a failed append are both caught and give \<open>False\<close>; a
  check-out runs the aggregation.
\<close>

definition log_entry :: "string \<Rightarrow> string \<Rightarrow> string \<Rightarrow> string \<Rightarrow> log_row" where
  "log_entry username date_str time_str event_type =
     \<lparr>Nom = username, Date = date_str, Heure = time_str, Evenement = event_type\<rparr>"

definition log_event ::
  "bool \<Rightarrow> store_faults \<Rightarrow> sheets \<Rightarrow> string \<Rightarrow> string \<Rightarrow> string \<Rightarrow> string \<Rightarrow> bool \<times> sheets" where
  "log_event append_fails fl sh date_str time_str username event_type =
     (case time_logs sh of
        None \<Rightarrow> (False, sh)
      | Some logs \<Rightarrow>
          (case append_row append_fails (log_entry username date_str time_str event_type)
                  logs of
             (Inl e, logs') \<Rightarrow> (False, sh\<lparr>time_logs := Some logs'\<rparr>)
           | (Inr u, logs') \<Rightarrow>
               (if event_type = ''CHECK OUT'' then
                  (True, snd (calculate_daily_hours fl (sh\<lparr>time_logs := Some logs'\<rparr>)
                                username date_str))
                else (True, sh\<lparr>time_logs := Some logs'\<rparr>))))"

text \<open>The event type \<^verbatim>\<open>take_break\<close> passes to \<^verbatim>\<open>log_event\<close> (lines 208 to 225).\<close>

definition take_break_event :: "log_row list \<Rightarrow> string \<Rightarrow> string" where
  "take_break_event records author =
     (let user_logs = [log \<leftarrow> records. Nom log = author];
          last_break =
            find (\<lambda>log. Evenement log \<in> set [''BREAK START'', ''BREAK END'']) (rev user_logs)
      in case last_break of
           None \<Rightarrow> ''BREAK START''
         | Some log \<Rightarrow>
             if Evenement log = ''BREAK END'' then ''BREAK START'' else ''BREAK END'')"

subsection \<open>Notions used to state the properties\<close>

text \<open>A run in which every call to the spreadsheet service completes.\<close>

definition no_faults :: store_faults where
  "no_faults =
     \<lparr>logs_read_fails = False, totals_read_fails = False, totals_write_fails = False\<rparr>"

text \<open>
  The specification's total for a balanced sequence: the records are check-in and
  check-out in turn, every time parses, and the total is the sum over the pairs of
  check-out time minus check-in time. Any other sequence has no such total.
\<close>

fun paired_total :: "log_row list \<Rightarrow> int option" where
  "paired_total [] = Some 0"
| "paired_total [a] = None"
| "paired_total (a # b # rest) =
     (if Evenement a = ''CHECK IN'' \<and> Evenement b = ''CHECK OUT'' then
        (case strptime (Heure a) of
           Inl e \<Rightarrow> None
         | Inr check_in \<Rightarrow>
             (case strptime (Heure b) of
                Inl e \<Rightarrow> None
              | Inr check_out \<Rightarrow>
                  (case paired_total rest of
                     None \<Rightarrow> None
                   | Some n \<Rightarrow> Some (seconds_between check_in check_out + n))))
      else None)"

text \<open>The summary rows of one user and date.\<close>

definition entries_for :: "total_row list \<Rightarrow> string \<Rightarrow> string \<Rightarrow> total_row list" where
  "entries_for totals username date_str =
     [entry \<leftarrow> totals. t_Nom entry = username \<and> t_Date entry = date_str]"

text \<open>
  The number a string of decimal digits denotes, to state that \<open>str_int\<close> writes the
  hours in full.
\<close>

definition decimal_value :: "string \<Rightarrow> nat" where
  "decimal_value s =
     foldl (\<lambda>a c. 10 * a + (case digit_of c of None \<Rightarrow> 0 | Some k \<Rightarrow> k)) 0 s"

text \<open>The two event types the break command records.\<close>

definition break_command_event :: "string \<Rightarrow> bool" where
  "break_command_event event_type = (event_type = ''BREAK START'' \<or> event_type = ''BREAK END'')"

section \<open>Properties\<close>

subsection \<open>Auxiliary facts\<close>

lemma write_total_completes:
  "\<not> fails \<Longrightarrow> fst (write_total fails es totals u d v) = Inr ()"
  by (simp add: write_total_def update_cell_def append_row_def split: option.splits)

lemma calculate_success:
  assumes "time_logs sh = Some logs" and "daily_totals sh = Some totals"
    and "\<not> logs_read_fails fl" and "\<not> totals_read_fails fl" and "\<not> totals_write_fails fl"
    and "[r \<leftarrow> logs. Nom r = u \<and> Date r = d] = urs" and "urs \<noteq> []"
    and "scan_records initial_state (sort_key Heure urs) = Inr st"
  shows "calculate_daily_hours fl sh u d =
           (Inr (Some (format_time (still_in_break st))),
            sh\<lparr>daily_totals :=
                 Some (snd (write_total False totals totals u d
                              (format_time (still_in_break st))))\<rparr>)"
proof -
  obtain w ts
    where w: "write_total False totals totals u d (format_time (still_in_break st)) = (w, ts)"
    by (cases "write_total False totals totals u d (format_time (still_in_break st))")
  with write_total_completes [of False totals totals u d "format_time (still_in_break st)"]
  have "w = Inr ()" by simp
  with w assms show ?thesis
    by (simp add: calculate_daily_hours_def try_block_def get_all_records_def Let_def)
qed

lemma calculate_success_result:
  assumes "[r \<leftarrow> logs. Nom r = u \<and> Date r = d] = urs" and "urs \<noteq> []"
    and "scan_records initial_state (sort_key Heure urs) = Inr st"
  shows "fst (calculate_daily_hours no_faults
                \<lparr>time_logs = Some logs, daily_totals = Some totals\<rparr> u d) =
           Inr (Some (format_time (still_in_break st)))"
  by (subst calculate_success [where logs = logs and totals = totals, OF _ _ _ _ _ assms])
     (simp_all add: no_faults_def)

lemma strptime_0900: "strptime ''09:00:00'' = Inr \<lparr>hour = 9, minute = 0, second = 0\<rparr>"
  by code_simp

lemma strptime_1200: "strptime ''12:00:00'' = Inr \<lparr>hour = 12, minute = 0, second = 0\<rparr>"
  by code_simp

lemma strptime_1230: "strptime ''12:30:00'' = Inr \<lparr>hour = 12, minute = 30, second = 0\<rparr>"
  by code_simp

lemma strptime_1700: "strptime ''17:00:00'' = Inr \<lparr>hour = 17, minute = 0, second = 0\<rparr>"
  by code_simp

lemmas strptime_examples = strptime_0900 strptime_1200 strptime_1230 strptime_1700

lemmas scan_unfold =
  process_record_def initial_state_def log_entry_def seconds_between_def seconds_of_def

lemma format_time_27000: "format_time 27000 = ''7h30m00s''"
  by code_simp

lemma format_time_21600: "format_time 21600 = ''6h00m00s''"
  by code_simp

subsection \<open>The dangling break\<close>

text \<open>
  C1. For the records check-in at 09:00:00 and BREAK at 12:00:00, with nothing after,
  the specification expects 3h00m00s. The BREAK branch adds the three hours before the
  break and leaves \<open>current_session_start\<close> set; the statement after the loop then finds
  the break, its start and the session start all present and adds the same three hours
  again. The function returns 6h00m00s.
\<close>

theorem C1_dangling_break_counted_twice:
  "scan_records initial_state
     [log_entry u d ''09:00:00'' ''CHECK IN'', log_entry u d ''12:00:00'' ''BREAK''] =
     Inr \<lparr>total_seconds = 10800,
          current_session_start = Some \<lparr>hour = 9, minute = 0, second = 0\<rparr>,
          in_break = True, break_start = Some \<lparr>hour = 12, minute = 0, second = 0\<rparr>\<rparr>
   \<and> still_in_break
        \<lparr>total_seconds = 10800,
          current_session_start = Some \<lparr>hour = 9, minute = 0, second = 0\<rparr>,
          in_break = True, break_start = Some \<lparr>hour = 12, minute = 0, second = 0\<rparr>\<rparr> = 21600
   \<and> fst (calculate_daily_hours no_faults
             \<lparr>time_logs = Some [log_entry u d ''09:00:00'' ''CHECK IN'',
                                log_entry u d ''12:00:00'' ''BREAK''],
              daily_totals = Some totals\<rparr> u d) = Inr (Some ''6h00m00s'')
   \<and> ''6h00m00s'' \<noteq> ''3h00m00s''"
proof -
  let ?rows = "[log_entry u d ''09:00:00'' ''CHECK IN'', log_entry u d ''12:00:00'' ''BREAK'']"
  let ?st = "\<lparr>total_seconds = 10800,
          current_session_start = Some \<lparr>hour = 9, minute = 0, second = 0\<rparr>,
          in_break = True, break_start = Some \<lparr>hour = 12, minute = 0, second = 0\<rparr>\<rparr>"
  have scan: "scan_records initial_state ?rows = Inr ?st"
    by (simp add: scan_unfold strptime_examples)
  have after: "still_in_break ?st = 21600"
    by (simp add: still_in_break_def seconds_between_def seconds_of_def)
  have sel: "[r \<leftarrow> ?rows. Nom r = u \<and> Date r = d] = ?rows"
    by (simp add: log_entry_def)
  have ordered: "sort_key Heure ?rows = ?rows"
    by (simp add: log_entry_def)
  have scan_ordered: "scan_records initial_state (sort_key Heure ?rows) = Inr ?st"
    unfolding ordered by (rule scan)
  have "fst (calculate_daily_hours no_faults
               \<lparr>time_logs = Some ?rows, daily_totals = Some totals\<rparr> u d) =
          Inr (Some (format_time (still_in_break ?st)))"
    by (rule calculate_success_result [OF sel _ scan_ordered]) simp
  with scan after show ?thesis
    by (simp add: format_time_21600)
qed

subsection \<open>The break toggle\<close>

text \<open>
  C2. For the records check-in at 09:00:00, BREAK at 12:00:00, BREAK at 12:30:00 and
  check-out at 17:00:00 the function returns 7h30m00s: after the first BREAK three hours
  are counted and the state is on break; the second BREAK ends the break and opens a
  session at 12:30:00; the check-out adds four and a half hours.
\<close>

theorem C2_break_toggle:
  "scan_records initial_state
     [log_entry u d ''09:00:00'' ''CHECK IN'', log_entry u d ''12:00:00'' ''BREAK''] =
     Inr \<lparr>total_seconds = 3 * 3600,
          current_session_start = Some \<lparr>hour = 9, minute = 0, second = 0\<rparr>,
          in_break = True, break_start = Some \<lparr>hour = 12, minute = 0, second = 0\<rparr>\<rparr>
   \<and> scan_records initial_state
     [log_entry u d ''09:00:00'' ''CHECK IN'', log_entry u d ''12:00:00'' ''BREAK'',
      log_entry u d ''12:30:00'' ''BREAK''] =
     Inr \<lparr>total_seconds = 3 * 3600,
          current_session_start = Some \<lparr>hour = 12, minute = 30, second = 0\<rparr>,
          in_break = False, break_start = Some \<lparr>hour = 12, minute = 0, second = 0\<rparr>\<rparr>
   \<and> scan_records initial_state
     [log_entry u d ''09:00:00'' ''CHECK IN'', log_entry u d ''12:00:00'' ''BREAK'',
      log_entry u d ''12:30:00'' ''BREAK'', log_entry u d ''17:00:00'' ''CHECK OUT''] =
     Inr \<lparr>total_seconds = 3 * 3600 + (4 * 3600 + 30 * 60), current_session_start = None,
          in_break = False, break_start = Some \<lparr>hour = 12, minute = 0, second = 0\<rparr>\<rparr>
   \<and> fst (calculate_daily_hours no_faults
             \<lparr>time_logs = Some [log_entry u d ''09:00:00'' ''CHECK IN'',
                                log_entry u d ''12:00:00'' ''BREAK'',
                                log_entry u d ''12:30:00'' ''BREAK'',
                                log_entry u d ''17:00:00'' ''CHECK OUT''],
              daily_totals = Some totals\<rparr> u d) = Inr (Some ''7h30m00s'')"
proof -
  let ?rows = "[log_entry u d ''09:00:00'' ''CHECK IN'', log_entry u d ''12:00:00'' ''BREAK'',
      log_entry u d ''12:30:00'' ''BREAK'', log_entry u d ''17:00:00'' ''CHECK OUT'']"
  let ?st = "\<lparr>total_seconds = 27000, current_session_start = None,
          in_break = False, break_start = Some \<lparr>hour = 12, minute = 0, second = 0\<rparr>\<rparr>"
  have two: "scan_records initial_state
     [log_entry u d ''09:00:00'' ''CHECK IN'', log_entry u d ''12:00:00'' ''BREAK''] =
     Inr \<lparr>total_seconds = 3 * 3600,
          current_session_start = Some \<lparr>hour = 9, minute = 0, second = 0\<rparr>,
          in_break = True, break_start = Some \<lparr>hour = 12, minute = 0, second = 0\<rparr>\<rparr>"
    by (simp add: scan_unfold strptime_examples)
  have three: "scan_records initial_state
     [log_entry u d ''09:00:00'' ''CHECK IN'', log_entry u d ''12:00:00'' ''BREAK'',
      log_entry u d ''12:30:00'' ''BREAK''] =
     Inr \<lparr>total_seconds = 3 * 3600,
          current_session_start = Some \<lparr>hour = 12, minute = 30, second = 0\<rparr>,
          in_break = False, break_start = Some \<lparr>hour = 12, minute = 0, second = 0\<rparr>\<rparr>"
    by (simp add: scan_unfold strptime_examples)
  have four: "scan_records initial_state ?rows = Inr ?st"
    by (simp add: scan_unfold strptime_examples)
  have sel: "[r \<leftarrow> ?rows. Nom r = u \<and> Date r = d] = ?rows"
    by (simp add: log_entry_def)
  have ordered: "sort_key Heure ?rows = ?rows"
    by (simp add: log_entry_def)
  have scan_ordered: "scan_records initial_state (sort_key Heure ?rows) = Inr ?st"
    unfolding ordered by (rule four)
  have "fst (calculate_daily_hours no_faults
               \<lparr>time_logs = Some ?rows, daily_totals = Some totals\<rparr> u d) =
          Inr (Some (format_time (still_in_break ?st)))"
    by (rule calculate_success_result [OF sel _ scan_ordered]) simp
  then have "fst (calculate_daily_hours no_faults
               \<lparr>time_logs = Some ?rows, daily_totals = Some totals\<rparr> u d) =
          Inr (Some ''7h30m00s'')"
    by (simp add: still_in_break_def format_time_27000)
  with two three four show ?thesis
    by simp
qed

subsection \<open>Formatting the total\<close>

lemma below_ten:
  "(k::nat) < 10 \<Longrightarrow>
     k = 0 \<or> k = 1 \<or> k = 2 \<or> k = 3 \<or> k = 4 \<or> k = 5 \<or> k = 6 \<or> k = 7 \<or> k = 8 \<or> k = 9"
  by arith

lemma digit_of_digit_char: "digit_of (digit_char n) = Some (n mod 10)"
proof -
  have "n mod 10 < 10" by simp
  then have "n mod 10 = 0 \<or> n mod 10 = 1 \<or> n mod 10 = 2 \<or> n mod 10 = 3 \<or> n mod 10 = 4
      \<or> n mod 10 = 5 \<or> n mod 10 = 6 \<or> n mod 10 = 7 \<or> n mod 10 = 8 \<or> n mod 10 = 9"
    by (rule below_ten)
  then show ?thesis
    unfolding digit_char_def digit_of_def by (elim disjE) simp_all
qed

lemma digit_char_mod: "digit_char (n mod 10) = digit_char n"
  by (simp add: digit_char_def)

lemma digit_char_zero_iff: "digit_char n = CHR ''0'' \<longleftrightarrow> n mod 10 = 0"
proof
  assume "digit_char n = CHR ''0''"
  then have "digit_of (digit_char n) = digit_of CHR ''0''" by simp
  then show "n mod 10 = 0" by (simp add: digit_of_digit_char) (simp add: digit_of_def)
next
  assume "n mod 10 = 0"
  then show "digit_char n = CHR ''0''" by (simp add: digit_char_def)
qed

lemma digits_small: "n < 10 \<Longrightarrow> digits_of_nat n = [digit_char n]"
  by (simp add: digits_of_nat.simps)

lemma digits_two:
  "10 \<le> n \<Longrightarrow> n < 100 \<Longrightarrow> digits_of_nat n = [digit_char (n div 10), digit_char n]"
  by (subst digits_of_nat.simps) (simp add: digits_small)

lemma digits_nonempty: "digits_of_nat n \<noteq> []"
  by (subst digits_of_nat.simps) simp

lemma decimal_value_snoc:
  "decimal_value (s @ [c]) =
     10 * decimal_value s + (case digit_of c of None \<Rightarrow> 0 | Some k \<Rightarrow> k)"
  by (simp add: decimal_value_def)

lemma decimal_value_digits: "decimal_value (digits_of_nat n) = n"
proof (induction n rule: digits_of_nat.induct)
  case (1 n)
  show ?case
  proof (cases "n < 10")
    case True
    then show ?thesis
      by (subst digits_of_nat.simps) (simp add: decimal_value_def digit_of_digit_char)
  next
    case False
    with 1 have "decimal_value (digits_of_nat (n div 10)) = n div 10" by simp
    with False show ?thesis
      by (subst digits_of_nat.simps) (simp add: decimal_value_snoc digit_of_digit_char)
  qed
qed

lemma digits_no_leading_zero: "0 < n \<Longrightarrow> hd (digits_of_nat n) \<noteq> CHR ''0''"
proof (induction n rule: digits_of_nat.induct)
  case (1 n)
  show ?case
  proof (cases "n < 10")
    case True
    with \<open>0 < n\<close> show ?thesis
      by (subst digits_of_nat.simps) (simp add: digit_char_zero_iff)
  next
    case False
    then have "0 < n div 10" by simp
    with 1 False have "hd (digits_of_nat (n div 10)) \<noteq> CHR ''0''" by simp
    with False show ?thesis
      by (subst digits_of_nat.simps) (simp add: digits_nonempty)
  qed
qed

lemma digits_leading_zero_iff: "hd (digits_of_nat n) = CHR ''0'' \<longleftrightarrow> n = 0"
proof (cases "n = 0")
  case True
  then show ?thesis by (simp add: digits_small digit_char_def)
next
  case False
  with digits_no_leading_zero [of n] show ?thesis by simp
qed

lemma format_02d_two:
  assumes "0 \<le> i" and "i < 100"
  shows "format_02d i = [digit_char (nat i div 10), digit_char (nat i mod 10)]"
proof (cases "i < 10")
  case True
  with assms have "nat i < 10" by simp
  then have "digits_of_nat (nat i) = [digit_char (nat i)]" by (rule digits_small)
  moreover from \<open>nat i < 10\<close> have "nat i div 10 = 0" by simp
  ultimately show ?thesis using assms
    by (simp add: format_02d_def digit_char_mod) (simp add: digit_char_def)
next
  case False
  with assms have "10 \<le> nat i" "nat i < 100" by simp_all
  then have "digits_of_nat (nat i) = [digit_char (nat i div 10), digit_char (nat i)]"
    by (rule digits_two)
  then show ?thesis using assms
    by (simp add: format_02d_def digit_char_mod)
qed

lemma format_time_35701: "format_time 35701 = ''9h55m01s''"
  by code_simp

lemma format_time_0: "format_time 0 = ''0h00m00s''"
  by code_simp

text \<open>
  C7. For every number of seconds \<open>t\<close>, with \<open>h\<close> the floor of \<open>t / 3600\<close>, \<open>m\<close> the floor
  of the remainder by 3600 divided by 60 and \<open>s\<close> the last remainder, the result is the
  hours, the letter h, the two decimal digits of \<open>m\<close>, the letter m, the two decimal digits
  of \<open>s\<close> and the letter s. Minutes and seconds lie between 0 and 59 and
  \<open>t = 3600 h + 60 m + s\<close>. The hours are written as Python's \<^verbatim>\<open>str\<close> writes an integer:
  a minus sign when negative, then all the decimal digits of the absolute value, which
  denote that value and start with 0 only for the value 0. 35701 seconds give 9h55m01s
  and 0 seconds give 0h00m00s.
\<close>

theorem C7_format_time:
  fixes t :: int
  defines "h \<equiv> t div 3600" and "m \<equiv> (t mod 3600) div 60" and "s \<equiv> (t mod 3600) mod 60"
  shows "format_time t =
           str_int h @ ''h'' @ [digit_char (nat m div 10), digit_char (nat m mod 10)] @ ''m''
             @ [digit_char (nat s div 10), digit_char (nat s mod 10)] @ ''s''
         \<and> 0 \<le> m \<and> m < 60 \<and> 0 \<le> s \<and> s < 60 \<and> t = 3600 * h + 60 * m + s
         \<and> str_int h = (if h < 0 then [CHR ''-''] else []) @ digits_of_nat (nat \<bar>h\<bar>)
         \<and> decimal_value (digits_of_nat (nat \<bar>h\<bar>)) = nat \<bar>h\<bar>
         \<and> (hd (digits_of_nat (nat \<bar>h\<bar>)) = CHR ''0'') = (h = 0)
         \<and> format_time 35701 = ''9h55m01s'' \<and> format_time 0 = ''0h00m00s''"
proof -
  have m: "0 \<le> m" "m < 60" unfolding m_def by simp_all
  have s: "0 \<le> s" "s < 60" unfolding s_def by simp_all
  have s': "t mod 60 = s" unfolding s_def by (simp add: mod_mod_cancel)
  have shape: "format_time t =
           str_int h @ ''h'' @ [digit_char (nat m div 10), digit_char (nat m mod 10)] @ ''m''
             @ [digit_char (nat s div 10), digit_char (nat s mod 10)] @ ''s''"
    using m s format_02d_two [of m] format_02d_two [of s]
    by (simp add: format_time_def Let_def s' h_def [symmetric] m_def [symmetric])
  have "t = 3600 * h + t mod 3600" unfolding h_def by simp
  moreover have "t mod 3600 = 60 * m + s" unfolding m_def s_def by simp
  ultimately have split: "t = 3600 * h + 60 * m + s" by simp
  have hours: "str_int h = (if h < 0 then [CHR ''-''] else []) @ digits_of_nat (nat \<bar>h\<bar>)"
    by (simp add: str_int_def)
  have lead: "(hd (digits_of_nat (nat \<bar>h\<bar>)) = CHR ''0'') = (h = 0)"
    by (simp add: digits_leading_zero_iff)
  from shape m s split hours lead show ?thesis
    by (simp only: decimal_value_digits format_time_35701 format_time_0 simp_thms)
qed

subsection \<open>Single records of the scan\<close>

text \<open>
  C9. A check-out record whose time parses adds the time from the session start to the
  event exactly when a session is open and the state is not on break; in every case it
  clears the session start and leaves the break state as it is.
\<close>

theorem C9_check_out:
  assumes "Evenement r = ''CHECK OUT''" and "strptime (Heure r) = Inr event_time"
  shows "process_record st r =
           Inr (st\<lparr>total_seconds :=
                     (case current_session_start st of
                        None \<Rightarrow> total_seconds st
                      | Some s \<Rightarrow>
                          if in_break st then total_seconds st
                          else total_seconds st + seconds_between s event_time),
                   current_session_start := None\<rparr>)"
  using assms by (simp add: process_record_def split: option.splits)

theorem C9_check_out_witness:
  "process_record
     \<lparr>total_seconds = 0, current_session_start = Some \<lparr>hour = 9, minute = 0, second = 0\<rparr>,
      in_break = False, break_start = None\<rparr>
     (log_entry ''ana'' ''2024-05-06'' ''17:00:00'' ''CHECK OUT'') =
     Inr \<lparr>total_seconds = 28800, current_session_start = None,
          in_break = False, break_start = None\<rparr>
   \<and> process_record
     \<lparr>total_seconds = 10800, current_session_start = Some \<lparr>hour = 9, minute = 0, second = 0\<rparr>,
      in_break = True, break_start = Some \<lparr>hour = 12, minute = 0, second = 0\<rparr>\<rparr>
     (log_entry ''ana'' ''2024-05-06'' ''17:00:00'' ''CHECK OUT'') =
     Inr \<lparr>total_seconds = 10800, current_session_start = None,
          in_break = True, break_start = Some \<lparr>hour = 12, minute = 0, second = 0\<rparr>\<rparr>"
proof -
  let ?r = "log_entry ''ana'' ''2024-05-06'' ''17:00:00'' ''CHECK OUT''"
  have kind: "Evenement ?r = ''CHECK OUT''" by (simp add: log_entry_def)
  have parsed: "strptime (Heure ?r) = Inr \<lparr>hour = 17, minute = 0, second = 0\<rparr>"
    by (simp add: log_entry_def strptime_1700)
  show ?thesis
    by (simp add: C9_check_out [OF kind parsed] seconds_between_def seconds_of_def)
qed

subsection \<open>Balanced check-ins and check-outs\<close>

lemma scan_paired:
  "paired_total rs = Some n \<Longrightarrow> current_session_start st = None \<Longrightarrow> \<not> in_break st \<Longrightarrow>
     scan_records st rs = Inr (st\<lparr>total_seconds := total_seconds st + n\<rparr>)"
proof (induction rs arbitrary: st n rule: paired_total.induct)
  case 1
  then show ?case by simp
next
  case (2 a)
  then show ?case by simp
next
  case (3 a b rest)
  from "3.prems"(1) obtain check_in check_out k
    where kinds: "Evenement a = ''CHECK IN''" "Evenement b = ''CHECK OUT''"
      and times: "strptime (Heure a) = Inr check_in" "strptime (Heure b) = Inr check_out"
      and rest: "paired_total rest = Some k"
      and n: "n = seconds_between check_in check_out + k"
    by (auto split: if_splits sum.splits option.splits)
  let ?st1 = "st\<lparr>current_session_start := Some check_in\<rparr>"
  let ?st2 = "st\<lparr>total_seconds := total_seconds st + seconds_between check_in check_out\<rparr>"
  have a: "process_record st a = Inr ?st1"
    using kinds times "3.prems" by (simp add: process_record_def)
  have b: "process_record ?st1 b = Inr ?st2"
    using kinds times "3.prems" by (cases st) (simp add: process_record_def)
  have "scan_records ?st2 rest = Inr (?st2\<lparr>total_seconds := total_seconds ?st2 + k\<rparr>)"
    using "3.IH" [OF _ times(1) times(2) rest, of ?st2] kinds "3.prems" by simp
  with a b n show ?case by (simp add: add.assoc)
qed

lemma check_in_open_session:
  "Evenement r = ''CHECK IN'' \<Longrightarrow> current_session_start st = Some s \<Longrightarrow>
     strptime (Heure r) = Inr t \<Longrightarrow> process_record st r = Inr st"
  by (simp add: process_record_def)

text \<open>
  C4. When the sorted records of the user and the date are check-in and check-out in
  turn, with times that parse, and there is at least one pair, a run without store faults
  returns the formatted sum over the pairs of check-out time minus check-in time. A
  check-in met while a session is open leaves the state, and so the session start, as it
  is.
\<close>

theorem C4_balanced_sessions:
  assumes "time_logs sh = Some logs" and "daily_totals sh = Some totals"
    and "\<not> logs_read_fails fl" and "\<not> totals_read_fails fl" and "\<not> totals_write_fails fl"
    and "sort_key Heure [r \<leftarrow> logs. Nom r = u \<and> Date r = d] = urs" and "urs \<noteq> []"
    and "paired_total urs = Some n"
  shows "fst (calculate_daily_hours fl sh u d) = Inr (Some (format_time n))
         \<and> (\<forall>st r s t. Evenement r = ''CHECK IN'' \<and> current_session_start st = Some s
                \<and> strptime (Heure r) = Inr t \<longrightarrow> process_record st r = Inr st)"
proof -
  let ?sel = "[r \<leftarrow> logs. Nom r = u \<and> Date r = d]"
  let ?st = "initial_state\<lparr>total_seconds := total_seconds initial_state + n\<rparr>"
  from assms(6,7) have nonempty: "?sel \<noteq> []" by auto
  have "scan_records initial_state urs = Inr ?st"
    using assms(8) by (rule scan_paired) (simp_all add: initial_state_def)
  with assms(6) have scan: "scan_records initial_state (sort_key Heure ?sel) = Inr ?st"
    by simp
  have total: "still_in_break ?st = n"
    by (simp add: still_in_break_def initial_state_def)
  have "fst (calculate_daily_hours fl sh u d) = Inr (Some (format_time (still_in_break ?st)))"
    by (subst calculate_success [OF assms(1-5) refl nonempty scan]) simp
  with total show ?thesis
    by (simp add: check_in_open_session)
qed

theorem C4_balanced_sessions_witness:
  "paired_total
     [log_entry ''ana'' ''2024-05-06'' ''09:00:00'' ''CHECK IN'',
      log_entry ''ana'' ''2024-05-06'' ''12:00:00'' ''CHECK OUT'',
      log_entry ''ana'' ''2024-05-06'' ''12:30:00'' ''CHECK IN'',
      log_entry ''ana'' ''2024-05-06'' ''17:00:00'' ''CHECK OUT''] = Some (10800 + 16200)
   \<and> fst (calculate_daily_hours no_faults
        \<lparr>time_logs = Some
           [log_entry ''ana'' ''2024-05-06'' ''12:30:00'' ''CHECK IN'',
            log_entry ''ana'' ''2024-05-06'' ''09:00:00'' ''CHECK IN'',
            log_entry ''bea'' ''2024-05-06'' ''10:00:00'' ''CHECK IN'',
            log_entry ''ana'' ''2024-05-06'' ''12:00:00'' ''CHECK OUT'',
            log_entry ''ana'' ''2024-05-06'' ''17:00:00'' ''CHECK OUT''],
         daily_totals = Some []\<rparr> ''ana'' ''2024-05-06'') = Inr (Some ''7h30m00s'')
   \<and> process_record
        \<lparr>total_seconds = 0, current_session_start = Some \<lparr>hour = 9, minute = 0, second = 0\<rparr>,
         in_break = False, break_start = None\<rparr>
        (log_entry ''ana'' ''2024-05-06'' ''12:00:00'' ''CHECK IN'') =
       Inr \<lparr>total_seconds = 0, current_session_start = Some \<lparr>hour = 9, minute = 0, second = 0\<rparr>,
            in_break = False, break_start = None\<rparr>"
proof -
  let ?a = "log_entry ''ana'' ''2024-05-06'' ''09:00:00'' ''CHECK IN''"
  let ?b = "log_entry ''ana'' ''2024-05-06'' ''12:00:00'' ''CHECK OUT''"
  let ?c = "log_entry ''ana'' ''2024-05-06'' ''12:30:00'' ''CHECK IN''"
  let ?d = "log_entry ''ana'' ''2024-05-06'' ''17:00:00'' ''CHECK OUT''"
  let ?other = "log_entry ''bea'' ''2024-05-06'' ''10:00:00'' ''CHECK IN''"
  let ?again = "log_entry ''ana'' ''2024-05-06'' ''12:00:00'' ''CHECK IN''"
  let ?logs = "[?c, ?a, ?other, ?b, ?d]"
  let ?sh = "\<lparr>time_logs = Some ?logs, daily_totals = Some []\<rparr>"
  let ?st = "\<lparr>total_seconds = 0, current_session_start = Some \<lparr>hour = 9, minute = 0, second = 0\<rparr>,
         in_break = False, break_start = None\<rparr>"
  have ordered: "sort_key Heure [r \<leftarrow> ?logs. Nom r = ''ana'' \<and> Date r = ''2024-05-06''] =
      [?a, ?b, ?c, ?d]"
    by (simp add: log_entry_def)
  have paired: "paired_total [?a, ?b, ?c, ?d] = Some (10800 + 16200)"
    by (simp add: log_entry_def strptime_examples seconds_between_def seconds_of_def)
  note inst = C4_balanced_sessions [where sh = ?sh and logs = ?logs and totals = "[]"
      and fl = no_faults and u = "''ana''" and d = "''2024-05-06''", OF _ _ _ _ _ ordered _ paired]
  have both: "fst (calculate_daily_hours no_faults ?sh ''ana'' ''2024-05-06'') =
          Inr (Some (format_time (10800 + 16200)))
        \<and> (\<forall>st r s t. Evenement r = ''CHECK IN'' \<and> current_session_start st = Some s
                \<and> strptime (Heure r) = Inr t \<longrightarrow> process_record st r = Inr st)"
    by (rule inst) (simp_all add: no_faults_def)
  then have result: "fst (calculate_daily_hours no_faults ?sh ''ana'' ''2024-05-06'') =
          Inr (Some ''7h30m00s'')"
    by (simp add: format_time_27000)
  have "Evenement ?again = ''CHECK IN'' \<and> current_session_start ?st = Some \<lparr>hour = 9, minute = 0, second = 0\<rparr>
        \<and> strptime (Heure ?again) = Inr \<lparr>hour = 12, minute = 0, second = 0\<rparr>"
    by (simp add: log_entry_def strptime_1200)
  with both have noop: "process_record ?st ?again = Inr ?st"
    by blast
  from paired result noop show ?thesis
    by (intro conjI)
qed

subsection \<open>The whole function: results and effects on the sheets\<close>

lemma sheets_same: "daily_totals sh = Some totals \<Longrightarrow> sh\<lparr>daily_totals := Some totals\<rparr> = sh"
  by (cases sh) simp

lemma write_total_fst:
  "fst (write_total fails es totals u d v) = (if fails then Inl StoreError else Inr ())"
  by (simp add: write_total_def update_cell_def append_row_def split: option.splits)

lemma write_total_fails: "snd (write_total True es totals u d v) = totals"
  by (simp add: write_total_def update_cell_def append_row_def split: option.splits)

text \<open>
  The three ways the try block ends: it returns \<open>None\<close>, it raises, or every call
  completes and it returns the formatted total after one write to "Totaux".
\<close>

lemma try_block_cases:
  "try_block fl logs totals u d = (Inr None, totals)
   \<or> (\<exists>e. try_block fl logs totals u d = (Inl e, totals))
   \<or> (\<exists>st. \<not> logs_read_fails fl \<and> \<not> totals_read_fails fl \<and> \<not> totals_write_fails fl
          \<and> scan_records initial_state
               (sort_key Heure [r \<leftarrow> logs. Nom r = u \<and> Date r = d]) = Inr st
          \<and> try_block fl logs totals u d =
               (Inr (Some (format_time (still_in_break st))),
                snd (write_total False totals totals u d (format_time (still_in_break st)))))"
proof -
  let ?urs = "[r \<leftarrow> logs. Nom r = u \<and> Date r = d]"
  show ?thesis
  proof (cases "logs_read_fails fl \<or> ?urs = []")
    case True
    then show ?thesis by (auto simp: try_block_def get_all_records_def)
  next
    case start: False
    show ?thesis
    proof (cases "scan_records initial_state (sort_key Heure ?urs)")
      case (Inl e)
      with start show ?thesis by (simp add: try_block_def get_all_records_def)
    next
      case (Inr st)
      let ?v = "format_time (still_in_break st)"
      show ?thesis
      proof (cases "totals_read_fails fl")
        case True
        with start Inr show ?thesis by (simp add: try_block_def get_all_records_def)
      next
        case False
        obtain w ts where w: "write_total (totals_write_fails fl) totals totals u d ?v = (w, ts)"
          by (cases "write_total (totals_write_fails fl) totals totals u d ?v")
        show ?thesis
        proof (cases "totals_write_fails fl")
          case True
          with w write_total_fst [of True totals totals u d ?v]
            write_total_fails [of totals totals u d ?v]
          have "w = Inl StoreError" "ts = totals" by simp_all
          with w True False start Inr show ?thesis
            by (simp add: try_block_def get_all_records_def Let_def)
        next
          case no_wf: False
          with w have w': "write_total False totals totals u d ?v = (w, ts)" by simp
          with write_total_fst [of False totals totals u d ?v] have "w = Inr ()" by simp
          with w' no_wf False start Inr show ?thesis
            by (simp add: try_block_def get_all_records_def Let_def)
        qed
      qed
    qed
  qed
qed

lemma calculate_cases:
  "calculate_daily_hours fl sh u d = (Inr None, sh)
   \<or> (\<exists>logs totals st.
         time_logs sh = Some logs \<and> daily_totals sh = Some totals
         \<and> \<not> logs_read_fails fl \<and> \<not> totals_read_fails fl \<and> \<not> totals_write_fails fl
         \<and> scan_records initial_state
              (sort_key Heure [r \<leftarrow> logs. Nom r = u \<and> Date r = d]) = Inr st
         \<and> calculate_daily_hours fl sh u d =
             (Inr (Some (format_time (still_in_break st))),
              sh\<lparr>daily_totals :=
                   Some (snd (write_total False totals totals u d
                                (format_time (still_in_break st))))\<rparr>))"
proof (cases "time_logs sh")
  case None
  then show ?thesis by (simp add: calculate_daily_hours_def)
next
  case (Some logs)
  show ?thesis
  proof (cases "daily_totals sh")
    case None
    with Some show ?thesis by (simp add: calculate_daily_hours_def)
  next
    case totals: (Some totals)
    from try_block_cases [of fl logs totals u d] Some totals show ?thesis
      by (elim disjE exE conjE) (simp_all add: calculate_daily_hours_def sheets_same)
  qed
qed

text \<open>
  C8. When the sheet "Logs" holds no row of the user and the date, the function returns
  \<open>None\<close> and both sheets are as before, whatever the store does.
\<close>

theorem C8_no_events:
  assumes "time_logs sh = Some logs" and "[r \<leftarrow> logs. Nom r = u \<and> Date r = d] = []"
  shows "calculate_daily_hours fl sh u d = (Inr None, sh)"
  using assms
  by (auto simp: calculate_daily_hours_def try_block_def get_all_records_def sheets_same
      split: option.splits)

theorem C8_no_events_witness:
  "[r \<leftarrow> [log_entry ''bea'' ''2024-05-06'' ''09:00:00'' ''CHECK IN'',
           log_entry ''ana'' ''2024-05-05'' ''09:00:00'' ''CHECK IN''].
       Nom r = ''ana'' \<and> Date r = ''2024-05-06''] = []
   \<and> calculate_daily_hours no_faults
        \<lparr>time_logs = Some [log_entry ''bea'' ''2024-05-06'' ''09:00:00'' ''CHECK IN'',
                           log_entry ''ana'' ''2024-05-05'' ''09:00:00'' ''CHECK IN''],
         daily_totals =
           Some [\<lparr>t_Nom = ''ana'', t_Date = ''2024-05-05'', t_Heures = ''8h00m00s''\<rparr>]\<rparr>
        ''ana'' ''2024-05-06'' =
       (Inr None,
        \<lparr>time_logs = Some [log_entry ''bea'' ''2024-05-06'' ''09:00:00'' ''CHECK IN'',
                           log_entry ''ana'' ''2024-05-05'' ''09:00:00'' ''CHECK IN''],
         daily_totals =
           Some [\<lparr>t_Nom = ''ana'', t_Date = ''2024-05-05'', t_Heures = ''8h00m00s''\<rparr>]\<rparr>)"
proof -
  let ?logs = "[log_entry ''bea'' ''2024-05-06'' ''09:00:00'' ''CHECK IN'',
                log_entry ''ana'' ''2024-05-05'' ''09:00:00'' ''CHECK IN'']"
  let ?sh = "\<lparr>time_logs = Some ?logs,
         daily_totals =
           Some [\<lparr>t_Nom = ''ana'', t_Date = ''2024-05-05'', t_Heures = ''8h00m00s''\<rparr>]\<rparr>"
  have none: "[r \<leftarrow> ?logs. Nom r = ''ana'' \<and> Date r = ''2024-05-06''] = []"
    by (simp add: log_entry_def)
  have "time_logs ?sh = Some ?logs" by simp
  from C8_no_events [OF this none, of no_faults] none show ?thesis
    by (intro conjI)
qed

lemma scan_parse_failure:
  "r \<in> set rs \<Longrightarrow> strptime (Heure r) = Inl e \<Longrightarrow> \<exists>e'. scan_records st rs = Inl e'"
proof (induction rs arbitrary: st)
  case Nil
  then show ?case by simp
next
  case (Cons a rs)
  show ?case
  proof (cases "process_record st a")
    case (Inl e')
    then show ?thesis by simp
  next
    case (Inr st1)
    with Cons.prems have "a \<noteq> r"
      by (auto simp: process_record_def)
    with Cons.prems have "r \<in> set rs" by simp
    with Cons.IH Cons.prems obtain e' where "scan_records st1 rs = Inl e'" by blast
    with Inr show ?thesis by simp
  qed
qed

lemma calculate_never_raises: "\<exists>res. fst (calculate_daily_hours fl sh u d) = Inr res"
  using calculate_cases [of fl sh u d] by auto

lemma strptime_malformed: "strptime ''17h00'' = Inl ValueError"
  by code_simp

text \<open>
  C6. With both sheets connected: when reading "Logs" fails, or the time of a record of
  the user and the date does not parse, or reading "Totaux" fails, or the write to
  "Totaux" fails, the function returns \<open>None\<close> and both sheets are as before. For every
  input the caller gets a returned value, never an exception.
\<close>

theorem C6_faults_give_no_result:
  assumes "time_logs sh = Some logs"
    and "logs_read_fails fl
         \<or> (\<exists>r \<in> set logs. Nom r = u \<and> Date r = d \<and> strptime (Heure r) = Inl ValueError)
         \<or> totals_read_fails fl \<or> totals_write_fails fl"
  shows "calculate_daily_hours fl sh u d = (Inr None, sh)
         \<and> (\<forall>fl' sh' u' d'. \<exists>res. fst (calculate_daily_hours fl' sh' u' d') = Inr res)"
proof -
  have "calculate_daily_hours fl sh u d = (Inr None, sh)"
    using calculate_cases [of fl sh u d]
  proof (elim disjE exE conjE)
    assume "calculate_daily_hours fl sh u d = (Inr None, sh)"
    then show ?thesis .
  next
    fix logs' totals st
    assume logs': "time_logs sh = Some logs'"
      and completes: "\<not> logs_read_fails fl" "\<not> totals_read_fails fl" "\<not> totals_write_fails fl"
      and scan: "scan_records initial_state
                   (sort_key Heure [r \<leftarrow> logs'. Nom r = u \<and> Date r = d]) = Inr st"
    from assms(2) completes obtain r
      where "r \<in> set logs" "Nom r = u" "Date r = d" "strptime (Heure r) = Inl ValueError"
      by blast
    with logs' assms(1)
    have "r \<in> set (sort_key Heure [r \<leftarrow> logs'. Nom r = u \<and> Date r = d])" by simp
    from scan_parse_failure [OF this \<open>strptime (Heure r) = Inl ValueError\<close>, of initial_state]
      scan
    show ?thesis by simp
  qed
  with calculate_never_raises show ?thesis by blast
qed

theorem C6_faults_give_no_result_witness:
  "strptime ''17h00'' = Inl ValueError
   \<and> calculate_daily_hours no_faults
        \<lparr>time_logs = Some [log_entry ''ana'' ''2024-05-06'' ''09:00:00'' ''CHECK IN'',
                           log_entry ''ana'' ''2024-05-06'' ''17h00'' ''CHECK OUT''],
         daily_totals = Some []\<rparr> ''ana'' ''2024-05-06'' =
       (Inr None,
        \<lparr>time_logs = Some [log_entry ''ana'' ''2024-05-06'' ''09:00:00'' ''CHECK IN'',
                           log_entry ''ana'' ''2024-05-06'' ''17h00'' ''CHECK OUT''],
         daily_totals = Some []\<rparr>)
   \<and> calculate_daily_hours
        \<lparr>logs_read_fails = False, totals_read_fails = False, totals_write_fails = True\<rparr>
        \<lparr>time_logs = Some [log_entry ''ana'' ''2024-05-06'' ''09:00:00'' ''CHECK IN'',
                           log_entry ''ana'' ''2024-05-06'' ''17:00:00'' ''CHECK OUT''],
         daily_totals =
           Some [\<lparr>t_Nom = ''ana'', t_Date = ''2024-05-06'', t_Heures = ''3h00m00s''\<rparr>]\<rparr>
        ''ana'' ''2024-05-06'' =
       (Inr None,
        \<lparr>time_logs = Some [log_entry ''ana'' ''2024-05-06'' ''09:00:00'' ''CHECK IN'',
                           log_entry ''ana'' ''2024-05-06'' ''17:00:00'' ''CHECK OUT''],
         daily_totals =
           Some [\<lparr>t_Nom = ''ana'', t_Date = ''2024-05-06'', t_Heures = ''3h00m00s''\<rparr>]\<rparr>)"
proof -
  let ?bad = "[log_entry ''ana'' ''2024-05-06'' ''09:00:00'' ''CHECK IN'',
               log_entry ''ana'' ''2024-05-06'' ''17h00'' ''CHECK OUT'']"
  let ?good = "[log_entry ''ana'' ''2024-05-06'' ''09:00:00'' ''CHECK IN'',
                log_entry ''ana'' ''2024-05-06'' ''17:00:00'' ''CHECK OUT'']"
  let ?sh1 = "\<lparr>time_logs = Some ?bad, daily_totals = Some []\<rparr>"
  let ?sh2 = "\<lparr>time_logs = Some ?good,
         daily_totals =
           Some [\<lparr>t_Nom = ''ana'', t_Date = ''2024-05-06'', t_Heures = ''3h00m00s''\<rparr>]\<rparr>"
  let ?fl2 = "\<lparr>logs_read_fails = False, totals_read_fails = False, totals_write_fails = True\<rparr>"
  have l1: "time_logs ?sh1 = Some ?bad" by simp
  have f1: "logs_read_fails no_faults
         \<or> (\<exists>r \<in> set ?bad. Nom r = ''ana'' \<and> Date r = ''2024-05-06''
               \<and> strptime (Heure r) = Inl ValueError)
         \<or> totals_read_fails no_faults \<or> totals_write_fails no_faults"
    by (simp add: log_entry_def strptime_malformed)
  have l2: "time_logs ?sh2 = Some ?good" by simp
  have f2: "logs_read_fails ?fl2
         \<or> (\<exists>r \<in> set ?good. Nom r = ''ana'' \<and> Date r = ''2024-05-06''
               \<and> strptime (Heure r) = Inl ValueError)
         \<or> totals_read_fails ?fl2 \<or> totals_write_fails ?fl2"
    by simp
  have parse_fault: "calculate_daily_hours no_faults ?sh1 ''ana'' ''2024-05-06'' = (Inr None, ?sh1)"
    using C6_faults_give_no_result [OF l1 f1] by (rule conjunct1)
  have write_fault: "calculate_daily_hours ?fl2 ?sh2 ''ana'' ''2024-05-06'' = (Inr None, ?sh2)"
    using C6_faults_give_no_result [OF l2 f2] by (rule conjunct1)
  from strptime_malformed parse_fault write_fault show ?thesis
    by (intro conjI)
qed

lemma try_block_result_independent:
  "fst (try_block fl logs totals u d) = fst (try_block fl logs totals' u d)"
proof -
  have w: "(case write_total (totals_write_fails fl) es ts u d v of
                 (Inl e, ts') \<Rightarrow> (Inl e, ts')
               | (Inr x, ts') \<Rightarrow> (Inr (Some v), ts')) =
              ((if totals_write_fails fl then Inl StoreError else Inr (Some v)),
               snd (write_total (totals_write_fails fl) es ts u d v))" for ts es v
    using write_total_fst [of "totals_write_fails fl" es ts u d v]
    by (cases "write_total (totals_write_fails fl) es ts u d v") (auto split: sum.splits)
  show ?thesis
    by (simp add: try_block_def get_all_records_def Let_def w split: sum.splits)
qed

lemma calculate_result_depends:
  assumes "time_logs sh' = time_logs sh"
    and "daily_totals sh' = None \<longleftrightarrow> daily_totals sh = None"
  shows "fst (calculate_daily_hours fl sh' u d) = fst (calculate_daily_hours fl sh u d)"
proof (cases "time_logs sh")
  case None
  with assms show ?thesis by (simp add: calculate_daily_hours_def)
next
  case (Some logs)
  show ?thesis
  proof (cases "daily_totals sh")
    case None
    with assms Some show ?thesis by (simp add: calculate_daily_hours_def)
  next
    case totals: (Some totals)
    with assms obtain totals' where totals': "daily_totals sh' = Some totals'" by auto
    have "fst (calculate_daily_hours fl sh u d) =
            (case fst (try_block fl logs totals u d) of Inl e \<Rightarrow> Inr None | Inr res \<Rightarrow> Inr res)"
      using Some totals by (simp add: calculate_daily_hours_def split: prod.splits sum.splits)
    moreover have "fst (calculate_daily_hours fl sh' u d) =
            (case fst (try_block fl logs totals' u d) of Inl e \<Rightarrow> Inr None | Inr res \<Rightarrow> Inr res)"
      using Some totals' assms
      by (simp add: calculate_daily_hours_def split: prod.splits sum.splits)
    ultimately show ?thesis
      using try_block_result_independent [of fl logs totals u d totals'] by simp
  qed
qed

lemma write_total_is_one_write:
  "(\<exists>i. snd (write_total False totals totals u d v) = snd (update_cell False i 3 v totals))
   \<or> snd (write_total False totals totals u d v) =
        snd (append_row False \<lparr>t_Nom = u, t_Date = d, t_Heures = v\<rparr> totals)"
  by (cases "find_entry 2 totals u d") (auto simp: write_total_def)

text \<open>
  C10. The function leaves the sheet "Logs" as it is. The sheets afterwards are the
  sheets before, or the sheets before with one \<open>update_cell\<close> in column 3 of "Totaux", or
  with one \<open>append_row\<close> of a row of the user and the date to "Totaux". A later run
  returns what it would have returned without the earlier one.
\<close>

theorem C10_logs_sheet_unchanged:
  "time_logs (snd (calculate_daily_hours fl sh u d)) = time_logs sh
   \<and> (snd (calculate_daily_hours fl sh u d) = sh
      \<or> (\<exists>totals i v. daily_totals sh = Some totals
            \<and> snd (calculate_daily_hours fl sh u d) =
                sh\<lparr>daily_totals := Some (snd (update_cell False i 3 v totals))\<rparr>)
      \<or> (\<exists>totals v. daily_totals sh = Some totals
            \<and> snd (calculate_daily_hours fl sh u d) =
                sh\<lparr>daily_totals :=
                     Some (snd (append_row False \<lparr>t_Nom = u, t_Date = d, t_Heures = v\<rparr>
                                  totals))\<rparr>))
   \<and> fst (calculate_daily_hours fl' (snd (calculate_daily_hours fl sh u d)) u' d') =
       fst (calculate_daily_hours fl' sh u' d')"
proof -
  let ?sh' = "snd (calculate_daily_hours fl sh u d)"
  have shape: "?sh' = sh
      \<or> (\<exists>totals i v. daily_totals sh = Some totals
            \<and> ?sh' = sh\<lparr>daily_totals := Some (snd (update_cell False i 3 v totals))\<rparr>)
      \<or> (\<exists>totals v. daily_totals sh = Some totals
            \<and> ?sh' = sh\<lparr>daily_totals :=
                     Some (snd (append_row False \<lparr>t_Nom = u, t_Date = d, t_Heures = v\<rparr>
                                  totals))\<rparr>)"
    using calculate_cases [of fl sh u d]
  proof (elim disjE exE conjE)
    assume "calculate_daily_hours fl sh u d = (Inr None, sh)"
    then show ?thesis by simp
  next
    fix logs totals st
    assume totals: "daily_totals sh = Some totals"
      and run: "calculate_daily_hours fl sh u d =
         (Inr (Some (format_time (still_in_break st))),
          sh\<lparr>daily_totals :=
               Some (snd (write_total False totals totals u d
                            (format_time (still_in_break st))))\<rparr>)"
    from write_total_is_one_write [of totals u d "format_time (still_in_break st)"]
    show ?thesis
    proof (elim disjE exE)
      fix i
      assume "snd (write_total False totals totals u d (format_time (still_in_break st))) =
                snd (update_cell False i 3 (format_time (still_in_break st)) totals)"
      with totals run show ?thesis by auto
    next
      assume "snd (write_total False totals totals u d (format_time (still_in_break st))) =
                snd (append_row False
                       \<lparr>t_Nom = u, t_Date = d, t_Heures = format_time (still_in_break st)\<rparr>
                       totals)"
      with totals run show ?thesis by auto
    qed
  qed
  then have logs: "time_logs ?sh' = time_logs sh"
    by (elim disjE exE conjE) simp_all
  from shape have "daily_totals ?sh' = None \<longleftrightarrow> daily_totals sh = None"
    by (elim disjE exE conjE) simp_all
  with logs have "fst (calculate_daily_hours fl' ?sh' u' d') =
                    fst (calculate_daily_hours fl' sh u' d')"
    by (rule calculate_result_depends)
  with logs shape show ?thesis by (intro conjI)
qed

subsection \<open>The entry of the user and the date in "Totaux"\<close>

lemma entries_for_append:
  "entries_for (totals @ [e]) u d = entries_for totals u d @ (if t_Nom e = u \<and> t_Date e = d then [e] else [])"
  by (simp add: entries_for_def)

lemma find_entry_None: "find_entry i es u d = None \<longleftrightarrow> entries_for es u d = []"
  by (induction es arbitrary: i) (auto simp: entries_for_def)

lemma find_entry_Some:
  "find_entry i es u d = Some j \<Longrightarrow>
     i \<le> j \<and> j - i < length es \<and>
     entries_for (es[j - i := set_cell 3 v (es ! (j - i))]) u d =
       (case entries_for es u d of [] \<Rightarrow> [] | e # rest \<Rightarrow> e\<lparr>t_Heures := v\<rparr> # rest)"
proof (induction es arbitrary: i)
  case Nil
  then show ?case by simp
next
  case (Cons e es)
  show ?case
  proof (cases "t_Nom e = u \<and> t_Date e = d")
    case True
    with Cons.prems have "j = i" by simp
    with True show ?thesis by (simp add: entries_for_def set_cell_def)
  next
    case False
    with Cons.prems have "find_entry (Suc i) es u d = Some j" by auto
    from Cons.IH [OF this] have ih: "Suc i \<le> j" "j - Suc i < length es"
      "entries_for (es[j - Suc i := set_cell 3 v (es ! (j - Suc i))]) u d =
       (case entries_for es u d of [] \<Rightarrow> [] | e # rest \<Rightarrow> e\<lparr>t_Heures := v\<rparr> # rest)"
      by simp_all
    from ih(1) have "j - i = Suc (j - Suc i)" by simp
    with ih False show ?thesis by (auto simp: entries_for_def)
  qed
qed

lemma write_total_entries:
  "entries_for (snd (write_total False totals totals u d v)) u d =
     (case entries_for totals u d of
        [] \<Rightarrow> [\<lparr>t_Nom = u, t_Date = d, t_Heures = v\<rparr>]
      | e # rest \<Rightarrow> e\<lparr>t_Heures := v\<rparr> # rest)"
proof (cases "find_entry 2 totals u d")
  case None
  then have "entries_for totals u d = []" by (simp add: find_entry_None)
  with None show ?thesis
    by (simp add: write_total_def append_row_def entries_for_append)
next
  case (Some j)
  then have "entries_for totals u d \<noteq> []"
    using find_entry_None [of 2 totals u d] by simp
  with find_entry_Some [OF Some, of v] Some show ?thesis
    by (simp add: write_total_def update_cell_def split: list.splits)
qed

lemma write_total_length:
  "entries_for totals u d \<noteq> [] \<Longrightarrow> length (snd (write_total False totals totals u d v)) = length totals"
  by (cases "find_entry 2 totals u d")
     (simp_all add: find_entry_None write_total_def update_cell_def)

lemma calculate_entries:
  assumes "daily_totals sh = Some totals" and "calculate_daily_hours fl sh u d = (res, sh')"
  shows "\<exists>totals'. daily_totals sh' = Some totals'
           \<and> (case res of
                 Inr (Some v) \<Rightarrow>
                   map t_Heures (entries_for totals' u d) =
                     v # map t_Heures (tl (entries_for totals u d))
                   \<and> (entries_for totals u d \<noteq> [] \<longrightarrow> length totals' = length totals)
               | _ \<Rightarrow> totals' = totals)"
  using calculate_cases [of fl sh u d]
proof (elim disjE exE conjE)
  assume "calculate_daily_hours fl sh u d = (Inr None, sh)"
  with assms show ?thesis by auto
next
  fix logs totals0 st
  assume "daily_totals sh = Some totals0"
    and "calculate_daily_hours fl sh u d =
       (Inr (Some (format_time (still_in_break st))),
        sh\<lparr>daily_totals :=
             Some (snd (write_total False totals0 totals0 u d (format_time (still_in_break st))))\<rparr>)"
  with assms show ?thesis
    by (auto simp: write_total_entries write_total_length split: list.splits)
qed

lemma calculate_value:
  assumes "calculate_daily_hours fl sh u d = (Inr (Some v), sh')"
  shows "\<exists>logs st. time_logs sh = Some logs
           \<and> scan_records initial_state (sort_key Heure [r \<leftarrow> logs. Nom r = u \<and> Date r = d]) = Inr st
           \<and> v = format_time (still_in_break st)"
  using calculate_cases [of fl sh u d] assms by auto

lemma format_time_10800: "format_time 10800 = ''3h00m00s''"
  by code_simp

text \<open>
  C5. Start with at most one row of the user and the date in "Totaux" and run the
  function twice for them; the sheet "Logs" may change in between, "Totaux" does not. When
  the second run returns a total, "Totaux" then holds exactly one row of the user and
  the date, with that total. When the first run returned a total too, it had left
  exactly one such row with its own total, the second run kept the number of rows (it
  overwrote that row), and with the same sheet "Logs" in both runs the two totals are
  equal.
\<close>

theorem C5_upsert_last_write_wins:
  assumes "daily_totals sh = Some totals" and "length (entries_for totals u d) \<le> 1"
    and "calculate_daily_hours fl1 sh u d = (res1, sh1)"
    and "daily_totals sh2 = daily_totals sh1"
    and "calculate_daily_hours fl2 sh2 u d = (Inr (Some v2), sh3)"
  shows "(\<exists>totals1 totals3.
            daily_totals sh1 = Some totals1 \<and> daily_totals sh3 = Some totals3
            \<and> map t_Heures (entries_for totals3 u d) = [v2]
            \<and> (\<forall>v1. res1 = Inr (Some v1) \<longrightarrow>
                  map t_Heures (entries_for totals1 u d) = [v1]
                  \<and> length totals3 = length totals1
                  \<and> (time_logs sh2 = time_logs sh \<longrightarrow> v1 = v2)))"
proof -
  from calculate_entries [OF assms(1) assms(3)] obtain totals1
    where t1: "daily_totals sh1 = Some totals1"
      and first: "case res1 of
                 Inr (Some v) \<Rightarrow>
                   map t_Heures (entries_for totals1 u d) =
                     v # map t_Heures (tl (entries_for totals u d))
                   \<and> (entries_for totals u d \<noteq> [] \<longrightarrow> length totals1 = length totals)
               | _ \<Rightarrow> totals1 = totals"
    by blast
  from assms(2) have tl0: "tl (entries_for totals u d) = []"
    by (cases "entries_for totals u d") simp_all
  have small: "tl (entries_for totals1 u d) = []"
  proof (cases res1)
    case (Inl e)
    with first tl0 show ?thesis by simp
  next
    case (Inr r)
    show ?thesis
    proof (cases r)
      case None
      with Inr first tl0 show ?thesis by simp
    next
      case (Some v)
      with Inr first tl0 have "map t_Heures (entries_for totals1 u d) = [v]" by simp
      then show ?thesis by (cases "entries_for totals1 u d") simp_all
    qed
  qed
  from t1 assms(4) have t2: "daily_totals sh2 = Some totals1" by simp
  from calculate_entries [OF t2 assms(5)] obtain totals3
    where t3: "daily_totals sh3 = Some totals3"
      and second: "map t_Heures (entries_for totals3 u d) =
                     v2 # map t_Heures (tl (entries_for totals1 u d))"
      and len: "entries_for totals1 u d \<noteq> [] \<longrightarrow> length totals3 = length totals1"
    by auto
  from second small have one: "map t_Heures (entries_for totals3 u d) = [v2]" by simp
  have "\<forall>v1. res1 = Inr (Some v1) \<longrightarrow>
          map t_Heures (entries_for totals1 u d) = [v1]
          \<and> length totals3 = length totals1
          \<and> (time_logs sh2 = time_logs sh \<longrightarrow> v1 = v2)"
  proof (intro allI impI)
    fix v1
    assume r1: "res1 = Inr (Some v1)"
    from r1 first tl0 have e1: "map t_Heures (entries_for totals1 u d) = [v1]" by simp
    then have "entries_for totals1 u d \<noteq> []" by auto
    with len have l: "length totals3 = length totals1" by simp
    have "time_logs sh2 = time_logs sh \<longrightarrow> v1 = v2"
    proof
      assume same: "time_logs sh2 = time_logs sh"
      from calculate_value [OF assms(3) [unfolded r1]] obtain logs st
        where a: "time_logs sh = Some logs"
          "scan_records initial_state (sort_key Heure [r \<leftarrow> logs. Nom r = u \<and> Date r = d]) = Inr st"
          "v1 = format_time (still_in_break st)"
        by blast
      from calculate_value [OF assms(5)] obtain logs' st'
        where b: "time_logs sh2 = Some logs'"
          "scan_records initial_state (sort_key Heure [r \<leftarrow> logs'. Nom r = u \<and> Date r = d]) = Inr st'"
          "v2 = format_time (still_in_break st')"
        by blast
      from a b same show "v1 = v2" by simp
    qed
    with e1 l show "map t_Heures (entries_for totals1 u d) = [v1]
          \<and> length totals3 = length totals1
          \<and> (time_logs sh2 = time_logs sh \<longrightarrow> v1 = v2)" by simp
  qed
  with t1 t3 one show ?thesis by simp
qed

theorem C5_upsert_last_write_wins_witness:
  "calculate_daily_hours no_faults
     \<lparr>time_logs = Some [log_entry ''ana'' ''2024-05-06'' ''09:00:00'' ''CHECK IN'',
                        log_entry ''ana'' ''2024-05-06'' ''12:00:00'' ''CHECK OUT''],
      daily_totals = Some []\<rparr> ''ana'' ''2024-05-06'' =
     (Inr (Some ''3h00m00s''),
      \<lparr>time_logs = Some [log_entry ''ana'' ''2024-05-06'' ''09:00:00'' ''CHECK IN'',
                         log_entry ''ana'' ''2024-05-06'' ''12:00:00'' ''CHECK OUT''],
       daily_totals =
         Some [\<lparr>t_Nom = ''ana'', t_Date = ''2024-05-06'', t_Heures = ''3h00m00s''\<rparr>]\<rparr>)
   \<and> calculate_daily_hours no_faults
     \<lparr>time_logs = Some [log_entry ''ana'' ''2024-05-06'' ''09:00:00'' ''CHECK IN'',
                        log_entry ''ana'' ''2024-05-06'' ''12:00:00'' ''CHECK OUT'',
                        log_entry ''ana'' ''2024-05-06'' ''12:30:00'' ''CHECK IN'',
                        log_entry ''ana'' ''2024-05-06'' ''17:00:00'' ''CHECK OUT''],
      daily_totals =
        Some [\<lparr>t_Nom = ''ana'', t_Date = ''2024-05-06'', t_Heures = ''3h00m00s''\<rparr>]\<rparr>
     ''ana'' ''2024-05-06'' =
     (Inr (Some ''7h30m00s''),
      \<lparr>time_logs = Some [log_entry ''ana'' ''2024-05-06'' ''09:00:00'' ''CHECK IN'',
                         log_entry ''ana'' ''2024-05-06'' ''12:00:00'' ''CHECK OUT'',
                         log_entry ''ana'' ''2024-05-06'' ''12:30:00'' ''CHECK IN'',
                         log_entry ''ana'' ''2024-05-06'' ''17:00:00'' ''CHECK OUT''],
       daily_totals =
         Some [\<lparr>t_Nom = ''ana'', t_Date = ''2024-05-06'', t_Heures = ''7h30m00s''\<rparr>]\<rparr>)
   \<and> map t_Heures
        (entries_for [\<lparr>t_Nom = ''ana'', t_Date = ''2024-05-06'', t_Heures = ''7h30m00s''\<rparr>]
           ''ana'' ''2024-05-06'') = [''7h30m00s'']"
proof -
  let ?logs1 = "[log_entry ''ana'' ''2024-05-06'' ''09:00:00'' ''CHECK IN'',
                 log_entry ''ana'' ''2024-05-06'' ''12:00:00'' ''CHECK OUT'']"
  let ?logs2 = "[log_entry ''ana'' ''2024-05-06'' ''09:00:00'' ''CHECK IN'',
                 log_entry ''ana'' ''2024-05-06'' ''12:00:00'' ''CHECK OUT'',
                 log_entry ''ana'' ''2024-05-06'' ''12:30:00'' ''CHECK IN'',
                 log_entry ''ana'' ''2024-05-06'' ''17:00:00'' ''CHECK OUT'']"
  let ?row1 = "\<lparr>t_Nom = ''ana'', t_Date = ''2024-05-06'', t_Heures = ''3h00m00s''\<rparr>"
  let ?row2 = "\<lparr>t_Nom = ''ana'', t_Date = ''2024-05-06'', t_Heures = ''7h30m00s''\<rparr>"
  let ?sh = "\<lparr>time_logs = Some ?logs1, daily_totals = Some []\<rparr>"
  let ?sh1 = "\<lparr>time_logs = Some ?logs1, daily_totals = Some [?row1]\<rparr>"
  let ?sh2 = "\<lparr>time_logs = Some ?logs2, daily_totals = Some [?row1]\<rparr>"
  let ?sh3 = "\<lparr>time_logs = Some ?logs2, daily_totals = Some [?row2]\<rparr>"
  let ?st1 = "\<lparr>total_seconds = 10800, current_session_start = None,
                in_break = False, break_start = None\<rparr>"
  let ?st2 = "\<lparr>total_seconds = 27000, current_session_start = None,
                in_break = False, break_start = None\<rparr>"
  have sel1: "[r \<leftarrow> ?logs1. Nom r = ''ana'' \<and> Date r = ''2024-05-06''] = ?logs1"
    by (simp add: log_entry_def)
  have sel2: "[r \<leftarrow> ?logs2. Nom r = ''ana'' \<and> Date r = ''2024-05-06''] = ?logs2"
    by (simp add: log_entry_def)
  have ordered1: "sort_key Heure ?logs1 = ?logs1"
    by (simp add: log_entry_def)
  have ordered2: "sort_key Heure ?logs2 = ?logs2"
    by (simp add: log_entry_def)
  have "scan_records initial_state ?logs1 = Inr ?st1"
    by (simp add: scan_unfold strptime_examples)
  then have scan1: "scan_records initial_state (sort_key Heure ?logs1) = Inr ?st1"
    by (simp only: ordered1)
  have "scan_records initial_state ?logs2 = Inr ?st2"
    by (simp add: scan_unfold strptime_examples)
  then have scan2: "scan_records initial_state (sort_key Heure ?logs2) = Inr ?st2"
    by (simp only: ordered2)
  have v1: "format_time (still_in_break ?st1) = ''3h00m00s''"
    by (simp add: still_in_break_def format_time_10800)
  have v2: "format_time (still_in_break ?st2) = ''7h30m00s''"
    by (simp add: still_in_break_def format_time_27000)
  have w1: "snd (write_total False [] [] ''ana'' ''2024-05-06'' ''3h00m00s'') = [?row1]"
    by (simp add: write_total_def append_row_def)
  have w2: "snd (write_total False [?row1] [?row1] ''ana'' ''2024-05-06'' ''7h30m00s'') = [?row2]"
    by (simp add: write_total_def update_cell_def set_cell_def)
  have "calculate_daily_hours no_faults ?sh ''ana'' ''2024-05-06'' =
          (Inr (Some (format_time (still_in_break ?st1))),
           ?sh\<lparr>daily_totals :=
                 Some (snd (write_total False [] [] ''ana'' ''2024-05-06''
                              (format_time (still_in_break ?st1))))\<rparr>)"
    by (rule calculate_success [OF _ _ _ _ _ sel1 _ scan1]) (simp_all add: no_faults_def)
  then have first: "calculate_daily_hours no_faults ?sh ''ana'' ''2024-05-06'' =
                 (Inr (Some ''3h00m00s''), ?sh1)"
    by (simp only: v1 w1) simp
  have "calculate_daily_hours no_faults ?sh2 ''ana'' ''2024-05-06'' =
          (Inr (Some (format_time (still_in_break ?st2))),
           ?sh2\<lparr>daily_totals :=
                 Some (snd (write_total False [?row1] [?row1] ''ana'' ''2024-05-06''
                              (format_time (still_in_break ?st2))))\<rparr>)"
    by (rule calculate_success [OF _ _ _ _ _ sel2 _ scan2]) (simp_all add: no_faults_def)
  then have second: "calculate_daily_hours no_faults ?sh2 ''ana'' ''2024-05-06'' =
                  (Inr (Some ''7h30m00s''), ?sh3)"
    by (simp only: v2 w2) simp
  have start: "daily_totals ?sh = Some []" by simp
  have few: "length (entries_for [] ''ana'' ''2024-05-06'') \<le> 1"
    by (simp add: entries_for_def)
  have between: "daily_totals ?sh2 = daily_totals ?sh1" by simp
  from C5_upsert_last_write_wins [OF start few first between second]
  have "map t_Heures (entries_for [?row2] ''ana'' ''2024-05-06'') = [''7h30m00s'']"
    by (elim exE conjE) simp
  with first second show ?thesis
    by (intro conjI)
qed

subsection \<open>Events of the break command\<close>

lemma process_break_command_event:
  assumes "break_command_event (Evenement r)"
  shows "process_record st r = (case strptime (Heure r) of Inl e \<Rightarrow> Inl e | Inr t \<Rightarrow> Inr st)"
  using assms by (auto simp: process_record_def break_command_event_def split: sum.splits)

lemma scan_without_break_command_events:
  "scan_records st rs = Inr st' \<Longrightarrow>
     scan_records st [r \<leftarrow> rs. \<not> break_command_event (Evenement r)] = Inr st'"
proof (induction rs arbitrary: st)
  case Nil
  then show ?case by simp
next
  case (Cons r rs)
  then obtain st1
    where st1: "process_record st r = Inr st1" and rest: "scan_records st1 rs = Inr st'"
    by (auto split: sum.splits)
  show ?case
  proof (cases "break_command_event (Evenement r)")
    case True
    with st1 have "st1 = st"
      by (simp add: process_break_command_event split: sum.splits)
    with True rest Cons.IH show ?thesis by simp
  next
    case False
    with st1 rest Cons.IH show ?thesis by simp
  qed
qed

lemma take_break_event_kind: "break_command_event (take_break_event records author)"
  by (simp add: take_break_event_def break_command_event_def Let_def split: option.splits)

lemma take_break_logged:
  assumes "time_logs sh = Some logs"
  shows "time_logs (snd (log_event False fl sh date_str time_str author
                           (take_break_event logs author))) =
           Some (logs @ [log_entry author date_str time_str (take_break_event logs author)])"
proof -
  have "take_break_event logs author \<noteq> ''CHECK OUT''"
    using take_break_event_kind [of logs author] by (auto simp: break_command_event_def)
  with assms show ?thesis
    by (simp add: log_event_def append_row_def)
qed

lemma calculate_without_break_command_events:
  assumes logs: "time_logs sh = Some logs"
    and run: "calculate_daily_hours fl sh u d = (Inr (Some v), sh')"
    and left: "[r \<leftarrow> logs. Nom r = u \<and> Date r = d \<and> \<not> break_command_event (Evenement r)] \<noteq> []"
  shows "fst (calculate_daily_hours fl
                (sh\<lparr>time_logs := Some [r \<leftarrow> logs. \<not> break_command_event (Evenement r)]\<rparr>) u d) =
           Inr (Some v)"
proof -
  let ?kept = "[r \<leftarrow> logs. \<not> break_command_event (Evenement r)]"
  let ?sel = "[r \<leftarrow> logs. Nom r = u \<and> Date r = d]"
  let ?sel' = "[r \<leftarrow> ?kept. Nom r = u \<and> Date r = d]"
  from calculate_cases [of fl sh u d] run logs obtain totals st
    where totals: "daily_totals sh = Some totals"
      and completes: "\<not> logs_read_fails fl" "\<not> totals_read_fails fl" "\<not> totals_write_fails fl"
      and scan: "scan_records initial_state (sort_key Heure ?sel) = Inr st"
      and v: "v = format_time (still_in_break st)"
    by auto
  have "sort_key Heure ?sel' =
          [r \<leftarrow> sort_key Heure ?sel. \<not> break_command_event (Evenement r)]"
    by (simp add: filter_sort conj_commute)
  with scan_without_break_command_events [OF scan]
  have scan': "scan_records initial_state (sort_key Heure ?sel') = Inr st" by simp
  from left have nonempty: "?sel' \<noteq> []" by (simp add: conj_commute conj_left_commute)
  have "calculate_daily_hours fl (sh\<lparr>time_logs := Some ?kept\<rparr>) u d =
          (Inr (Some (format_time (still_in_break st))),
           sh\<lparr>time_logs := Some ?kept,
              daily_totals := Some (snd (write_total False totals totals u d
                                           (format_time (still_in_break st))))\<rparr>)"
    by (rule calculate_success [OF _ _ completes refl nonempty scan']) (simp_all add: totals)
  with v show ?thesis by simp
qed

lemma format_time_28800: "format_time 28800 = ''8h00m00s''"
  by code_simp

text \<open>
  C3. The break command passes BREAK START or BREAK END to \<open>log_event\<close>, which appends
  a row with that event type, and never BREAK. A record with one of these two event types
  leaves the state of the scan unchanged (the scan stops when its time does not parse, as
  for every record), so a scan that ends gives the same state as the scan of the list
  without these records; and a run that returns a total returns the same total on the
  sheet without these records, when a record of the user and the date is left.
\<close>

theorem C3_break_command_events_ignored:
  "break_command_event (take_break_event records author)
   \<and> \<not> break_command_event ''BREAK''
   \<and> (time_logs sh = Some logs \<longrightarrow>
        time_logs (snd (log_event False fl sh date_str time_str author
                          (take_break_event logs author))) =
          Some (logs @ [log_entry author date_str time_str (take_break_event logs author)]))
   \<and> (break_command_event (Evenement r) \<longrightarrow>
        process_record st r =
          (case strptime (Heure r) of Inl e \<Rightarrow> Inl e | Inr t \<Rightarrow> Inr st))
   \<and> (scan_records st rs = Inr st' \<longrightarrow>
        scan_records st [r \<leftarrow> rs. \<not> break_command_event (Evenement r)] = Inr st')
   \<and> (time_logs sh = Some logs \<and> calculate_daily_hours fl sh u d = (Inr (Some v), sh')
        \<and> [r \<leftarrow> logs. Nom r = u \<and> Date r = d \<and> \<not> break_command_event (Evenement r)] \<noteq> []
        \<longrightarrow>
        fst (calculate_daily_hours fl
               (sh\<lparr>time_logs := Some [r \<leftarrow> logs. \<not> break_command_event (Evenement r)]\<rparr>)
               u d) = Inr (Some v))"
proof -
  have "\<not> break_command_event ''BREAK''"
    by (simp add: break_command_event_def)
  then show ?thesis
    using take_break_event_kind [of records author]
      take_break_logged [of sh logs fl date_str time_str author]
      process_break_command_event [of r st]
      scan_without_break_command_events [of st rs st']
      calculate_without_break_command_events [of sh logs fl u d v sh']
    by blast
qed

theorem C3_break_command_events_ignored_witness:
  "take_break_event [log_entry ''ana'' ''2024-05-06'' ''09:00:00'' ''CHECK IN''] ''ana'' =
     ''BREAK START''
   \<and> time_logs (snd (log_event False no_faults
        \<lparr>time_logs = Some [log_entry ''ana'' ''2024-05-06'' ''09:00:00'' ''CHECK IN''],
         daily_totals = None\<rparr>
        ''2024-05-06'' ''12:00:00'' ''ana'' ''BREAK START'')) =
       Some [log_entry ''ana'' ''2024-05-06'' ''09:00:00'' ''CHECK IN'',
             log_entry ''ana'' ''2024-05-06'' ''12:00:00'' ''BREAK START'']
   \<and> process_record initial_state
        (log_entry ''ana'' ''2024-05-06'' ''12:00:00'' ''BREAK START'') = Inr initial_state
   \<and> scan_records initial_state
        [log_entry ''ana'' ''2024-05-06'' ''09:00:00'' ''CHECK IN'',
         log_entry ''ana'' ''2024-05-06'' ''12:00:00'' ''BREAK START'',
         log_entry ''ana'' ''2024-05-06'' ''12:30:00'' ''BREAK END'',
         log_entry ''ana'' ''2024-05-06'' ''17:00:00'' ''CHECK OUT''] =
       Inr \<lparr>total_seconds = 28800, current_session_start = None,
            in_break = False, break_start = None\<rparr>
   \<and> scan_records initial_state
        [log_entry ''ana'' ''2024-05-06'' ''09:00:00'' ''CHECK IN'',
         log_entry ''ana'' ''2024-05-06'' ''17:00:00'' ''CHECK OUT''] =
       Inr \<lparr>total_seconds = 28800, current_session_start = None,
            in_break = False, break_start = None\<rparr>
   \<and> fst (calculate_daily_hours no_faults
        \<lparr>time_logs = Some
           [log_entry ''ana'' ''2024-05-06'' ''09:00:00'' ''CHECK IN'',
            log_entry ''ana'' ''2024-05-06'' ''12:00:00'' ''BREAK START'',
            log_entry ''ana'' ''2024-05-06'' ''12:30:00'' ''BREAK END'',
            log_entry ''ana'' ''2024-05-06'' ''17:00:00'' ''CHECK OUT''],
         daily_totals = Some []\<rparr> ''ana'' ''2024-05-06'') = Inr (Some ''8h00m00s'')
   \<and> fst (calculate_daily_hours no_faults
        \<lparr>time_logs = Some
           [log_entry ''ana'' ''2024-05-06'' ''09:00:00'' ''CHECK IN'',
            log_entry ''ana'' ''2024-05-06'' ''17:00:00'' ''CHECK OUT''],
         daily_totals = Some []\<rparr> ''ana'' ''2024-05-06'') = Inr (Some ''8h00m00s'')"
proof -
  let ?ci = "log_entry ''ana'' ''2024-05-06'' ''09:00:00'' ''CHECK IN''"
  let ?bs = "log_entry ''ana'' ''2024-05-06'' ''12:00:00'' ''BREAK START''"
  let ?be = "log_entry ''ana'' ''2024-05-06'' ''12:30:00'' ''BREAK END''"
  let ?co = "log_entry ''ana'' ''2024-05-06'' ''17:00:00'' ''CHECK OUT''"
  let ?day = "[?ci, ?bs, ?be, ?co]"
  let ?sh = "\<lparr>time_logs = Some [?ci], daily_totals = None\<rparr>"
  let ?sh_day = "\<lparr>time_logs = Some ?day, daily_totals = Some []\<rparr>"
  let ?st' = "\<lparr>total_seconds = 28800, current_session_start = None,
            in_break = False, break_start = None\<rparr>"
  have chosen: "take_break_event [?ci] ''ana'' = ''BREAK START''"
    by (simp add: take_break_event_def log_entry_def)
  have kind: "break_command_event (Evenement ?bs)"
    by (simp add: break_command_event_def log_entry_def)
  have parsed: "strptime (Heure ?bs) = Inr \<lparr>hour = 12, minute = 0, second = 0\<rparr>"
    by (simp add: log_entry_def strptime_1200)
  have full: "scan_records initial_state ?day = Inr ?st'"
    by (simp add: scan_unfold strptime_examples)
  have kept: "[r \<leftarrow> ?day. \<not> break_command_event (Evenement r)] = [?ci, ?co]"
    by (simp add: break_command_event_def log_entry_def)
  have sel: "[r \<leftarrow> ?day. Nom r = ''ana'' \<and> Date r = ''2024-05-06''] = ?day"
    by (simp add: log_entry_def)
  have ordered: "sort_key Heure ?day = ?day"
    by (simp add: log_entry_def)
  from full have scan_ordered: "scan_records initial_state (sort_key Heure ?day) = Inr ?st'"
    by (simp only: ordered)
  have total: "format_time (still_in_break ?st') = ''8h00m00s''"
    by (simp add: still_in_break_def format_time_28800)
  have "calculate_daily_hours no_faults ?sh_day ''ana'' ''2024-05-06'' =
          (Inr (Some (format_time (still_in_break ?st'))),
           ?sh_day\<lparr>daily_totals :=
                 Some (snd (write_total False [] [] ''ana'' ''2024-05-06''
                              (format_time (still_in_break ?st'))))\<rparr>)"
    by (rule calculate_success [OF _ _ _ _ _ sel _ scan_ordered]) (simp_all add: no_faults_def)
  then have run: "calculate_daily_hours no_faults ?sh_day ''ana'' ''2024-05-06'' =
          (Inr (Some ''8h00m00s''),
           ?sh_day\<lparr>daily_totals :=
                 Some (snd (write_total False [] [] ''ana'' ''2024-05-06'' ''8h00m00s''))\<rparr>)"
    by (simp only: total)
  have left: "[r \<leftarrow> ?day. Nom r = ''ana'' \<and> Date r = ''2024-05-06''
                 \<and> \<not> break_command_event (Evenement r)] \<noteq> []"
    by (simp add: break_command_event_def log_entry_def)
  note inst = C3_break_command_events_ignored [where records = "[?ci]" and author = "''ana''"
      and sh = ?sh and logs = "[?ci]" and fl = no_faults and date_str = "''2024-05-06''"
      and time_str = "''12:00:00''" and r = ?bs and st = initial_state
      and rs = ?day and st' = ?st']
  note inst_day = C3_break_command_events_ignored [where sh = ?sh_day and logs = ?day
      and fl = no_faults and u = "''ana''" and d = "''2024-05-06''" and v = "''8h00m00s''"
      and sh' = "?sh_day\<lparr>daily_totals :=
                 Some (snd (write_total False [] [] ''ana'' ''2024-05-06'' ''8h00m00s''))\<rparr>"]
  have "time_logs ?sh = Some [?ci]" by simp
  with inst have "time_logs (snd (log_event False no_faults ?sh
        ''2024-05-06'' ''12:00:00'' ''ana'' (take_break_event [?ci] ''ana''))) =
       Some ([?ci] @ [log_entry ''ana'' ''2024-05-06'' ''12:00:00'' (take_break_event [?ci] ''ana'')])"
    by blast
  then have logged: "time_logs (snd (log_event False no_faults ?sh
        ''2024-05-06'' ''12:00:00'' ''ana'' ''BREAK START'')) = Some [?ci, ?bs]"
    by (simp only: chosen append.simps)
  from inst kind have "process_record initial_state ?bs =
      (case strptime (Heure ?bs) of Inl e \<Rightarrow> Inl e | Inr t \<Rightarrow> Inr initial_state)"
    by blast
  then have step: "process_record initial_state ?bs = Inr initial_state"
    by (simp only: parsed sum.case)
  from inst full have "scan_records initial_state
        [r \<leftarrow> ?day. \<not> break_command_event (Evenement r)] = Inr ?st'"
    by blast
  then have short: "scan_records initial_state [?ci, ?co] = Inr ?st'"
    by (simp only: kept)
  have present: "time_logs ?sh_day = Some ?day" by simp
  have "fst (calculate_daily_hours no_faults
               (?sh_day\<lparr>time_logs := Some [r \<leftarrow> ?day. \<not> break_command_event (Evenement r)]\<rparr>)
               ''ana'' ''2024-05-06'') = Inr (Some ''8h00m00s'')"
    by (rule inst_day [THEN conjunct2, THEN conjunct2, THEN conjunct2, THEN conjunct2,
          THEN conjunct2, THEN mp]) (intro conjI present run left)
  then have without: "fst (calculate_daily_hours no_faults
        \<lparr>time_logs = Some [?ci, ?co], daily_totals = Some []\<rparr> ''ana'' ''2024-05-06'') =
       Inr (Some ''8h00m00s'')"
    by (simp only: kept) simp
  from run have with_breaks: "fst (calculate_daily_hours no_faults ?sh_day ''ana'' ''2024-05-06'') =
       Inr (Some ''8h00m00s'')"
    by simp
  from chosen logged step full short with_breaks without show ?thesis
    by (intro conjI)
qed

end
